theory Spec2Isabelle
  imports Complex_Main "HOL-Library.Word"
begin

section \<open>JavaScript values and string primitives\<close>

text \<open>
  The embedding follows \<^verbatim>\<open>src/lib/unicode.ts\<close>. A JavaScript string is modelled as a
  \<^typ>\<open>string\<close>, the list of its code units; the model is exact on ASCII text, which is
  what \<^verbatim>\<open>UnicodeData.txt\<close> and \<^verbatim>\<open>Blocks.txt\<close> hold (a code unit above 255 has no
  counterpart, and \<^verbatim>\<open>toUpperCase\<close> is modelled on the ASCII letters). A \<^verbatim>\<open>number\<close> that
  holds a code point is an \<^typ>\<open>int\<close>, with \<open>None\<close> for \<^verbatim>\<open>NaN\<close>; this is exact below
  \<open>2^53\<close> in magnitude. A value that may be \<^verbatim>\<open>undefined\<close> is an option, and a thrown
  \<^verbatim>\<open>TypeError\<close> is a value of the type \<open>error\<close>. The content of a file is a parameter
  of the function that reads it; a failure to read it is not modelled.
\<close>

datatype error = TypeError

text \<open>\<^verbatim>\<open>s.startsWith(p)\<close>, \<^verbatim>\<open>s.endsWith(p)\<close>, \<^verbatim>\<open>s.includes(p)\<close>.\<close>

definition startsWith :: "string \<Rightarrow> string \<Rightarrow> bool" where
  "startsWith s p = (take (length p) s = p)"

definition endsWith :: "string \<Rightarrow> string \<Rightarrow> bool" where
  "endsWith s p = (length p \<le> length s \<and> drop (length s - length p) s = p)"

fun includes_str :: "string \<Rightarrow> string \<Rightarrow> bool" where
  "includes_str [] p = (p = [])"
| "includes_str (c # cs) p = (startsWith (c # cs) p \<or> includes_str cs p)"

text \<open>\<^verbatim>\<open>s.slice(1, -7)\<close>: from index 1 up to (excluding) index \<open>max (length - 7) 0\<close>.\<close>

definition slice_1_m7 :: "string \<Rightarrow> string" where
  "slice_1_m7 s = drop 1 (take (length s - 7) s)"

text \<open>\<^verbatim>\<open>s.split(c)\<close> for a one-character separator: never empty, \<open>[""]\<close> on the empty string.\<close>

fun split_char :: "char \<Rightarrow> string \<Rightarrow> string list" where
  "split_char c [] = [[]]"
| "split_char c (x # xs) =
     (if x = c then [] # split_char c xs
      else (case split_char c xs of [] \<Rightarrow> [[x]] | y # ys \<Rightarrow> (x # y) # ys))"


text \<open>Array indexing \<^verbatim>\<open>xs[i]\<close>: \<^verbatim>\<open>undefined\<close> outside the array.\<close>

definition array_get :: "'a list \<Rightarrow> int \<Rightarrow> 'a option" where
  "array_get xs i = (if 0 \<le> i \<and> i < int (length xs) then Some (xs ! nat i) else None)"

text \<open>A string or \<^verbatim>\<open>undefined\<close> inside a template literal.\<close>

definition template :: "string option \<Rightarrow> string" where
  "template v = (case v of None \<Rightarrow> ''undefined'' | Some s \<Rightarrow> s)"

text \<open>\<^verbatim>\<open>a % b\<close> on integers: the remainder has the sign of the dividend.\<close>

definition js_rem :: "int \<Rightarrow> int \<Rightarrow> int" where
  "js_rem a b = sgn a * (\<bar>a\<bar> mod \<bar>b\<bar>)"

text \<open>\<^verbatim>\<open>s.toUpperCase()\<close> on the ASCII letters.\<close>

definition upper_char :: "char \<Rightarrow> char" where
  "upper_char c =
     (case map_of (zip ''abcdefghijklmnopqrstuvwxyz'' ''ABCDEFGHIJKLMNOPQRSTUVWXYZ'') c of
        None \<Rightarrow> c
      | Some u \<Rightarrow> u)"

definition toUpperCase :: "string \<Rightarrow> string" where
  "toUpperCase s = map upper_char s"

subsection \<open>Hexadecimal: \<^verbatim>\<open>parseInt(s, 16)\<close> and \<^verbatim>\<open>n.toString(16)\<close>\<close>

definition hex_digit_value :: "char \<Rightarrow> int option" where
  "hex_digit_value c =
     (let n = (of_char c :: nat) in
      if 48 \<le> n \<and> n \<le> 57 then Some (int n - 48)
      else if 97 \<le> n \<and> n \<le> 102 then Some (int n - 87)
      else if 65 \<le> n \<and> n \<le> 70 then Some (int n - 55)
      else None)"

definition is_white :: "char \<Rightarrow> bool" where
  "is_white c = ((of_char c :: nat) \<in> {9, 10, 11, 12, 13, 32, 160})"

text \<open>The value of the longest prefix of hexadecimal digits, and whether it is non-empty.\<close>

fun hex_prefix :: "int \<Rightarrow> bool \<Rightarrow> string \<Rightarrow> int option" where
  "hex_prefix acc seen [] = (if seen then Some acc else None)"
| "hex_prefix acc seen (c # cs) =
     (case hex_digit_value c of
        None \<Rightarrow> (if seen then Some acc else None)
      | Some d \<Rightarrow> hex_prefix (16 * acc + d) True cs)"

definition strip_0x :: "string \<Rightarrow> string" where
  "strip_0x s = (if startsWith s ''0x'' \<or> startsWith s ''0X'' then drop 2 s else s)"

text \<open>
  \<^verbatim>\<open>parseInt(s, 16)\<close>: leading white space is skipped, then an optional sign, then an
  optional \<^verbatim>\<open>0x\<close>, then the longest run of hexadecimal digits; \<^verbatim>\<open>NaN\<close> without a digit.
\<close>

definition parseInt16 :: "string \<Rightarrow> int option" where
  "parseInt16 s =
     (let t = dropWhile is_white s in
      case t of
        [] \<Rightarrow> None
      | c # cs \<Rightarrow>
          if c = CHR ''-'' then map_option uminus (hex_prefix 0 False (strip_0x cs))
          else if c = CHR ''+'' then hex_prefix 0 False (strip_0x cs)
          else hex_prefix 0 False (strip_0x t))"

definition hex_digit :: "nat \<Rightarrow> char" where
  "hex_digit d = ''0123456789abcdef'' ! d"

fun hex_nat :: "nat \<Rightarrow> string" where
  "hex_nat n = (if n < 16 then [hex_digit n] else hex_nat (n div 16) @ [hex_digit (n mod 16)])"

declare hex_nat.simps [simp del]

definition toString16 :: "int \<Rightarrow> string" where
  "toString16 n = (if n < 0 then CHR ''-'' # hex_nat (nat (- n)) else hex_nat (nat n))"

section \<open>Hangul syllable names\<close>

definition initials :: "string list" where
  "initials = [''g'', ''gg'', ''n'', ''d'', ''dd'', ''r'', ''m'', ''b'', ''bb'', ''s'', ''ss'', '''',
     ''j'', ''jj'', ''ch'', ''k'', ''t'', ''p'', ''h'']"

definition vowels :: "string list" where
  "vowels = [''a'', ''ae'', ''ya'', ''yae'', ''eo'', ''e'', ''yeo'', ''ye'', ''o'', ''wa'', ''wae'',
     ''oe'', ''yo'', ''u'', ''weo'', ''we'', ''wi'', ''yu'', ''eu'', ''ui'', ''i'']"

definition finals :: "string list" where
  "finals = ['''', ''g'', ''gg'', ''gs'', ''n'', ''nj'', ''nh'', ''d'', ''l'', ''lg'', ''lm'', ''lb'',
     ''ls'', ''lt'', ''lp'', ''lh'', ''m'', ''b'', ''bs'', ''s'', ''ss'', ''ng'', ''j'', ''ch'', ''k'',
     ''t'', ''p'', ''h'']"

text \<open>
  \<^verbatim>\<open>getHangulSyllableName(id)\<close>: \<^verbatim>\<open>Math.floor(order / 588)\<close> is the floor division,
  \<^verbatim>\<open>%\<close> the JavaScript remainder, and an index outside a table gives \<^verbatim>\<open>undefined\<close>.
\<close>

definition getHangulSyllableName :: "int \<Rightarrow> string" where
  "getHangulSyllableName ident =
     (let order = ident - 0xAC00;
          initial = array_get initials (order div 588);
          vowel = array_get vowels (js_rem order 588 div 28);
          final = array_get finals (js_rem order 28)
      in template initial @ template vowel @ template final)"

text \<open>The decomposition as the specification words it, over its three tables.\<close>

definition spec_initials :: "string list" where
  "spec_initials = [''g'', ''gg'', ''n'', ''d'', ''dd'', ''r'', ''m'', ''b'', ''bb'', ''s'', ''ss'',
     '''', ''j'', ''jj'', ''ch'', ''k'', ''t'', ''p'', ''h'']"

definition spec_vowels :: "string list" where
  "spec_vowels = [''a'', ''ae'', ''ya'', ''yae'', ''eo'', ''e'', ''yeo'', ''ye'', ''o'', ''wa'',
     ''wae'', ''oe'', ''yo'', ''u'', ''weo'', ''we'', ''wi'', ''yu'', ''eu'', ''ui'', ''i'']"

definition spec_finals :: "string list" where
  "spec_finals = ['''', ''g'', ''gg'', ''gs'', ''n'', ''nj'', ''nh'', ''d'', ''l'', ''lg'', ''lm'',
     ''lb'', ''ls'', ''lt'', ''lp'', ''lh'', ''m'', ''b'', ''bs'', ''s'', ''ss'', ''ng'', ''j'', ''ch'',
     ''k'', ''t'', ''p'', ''h'']"

definition spec_hangul_name :: "int \<Rightarrow> string" where
  "spec_hangul_name ident =
     spec_initials ! nat ((ident - 0xAC00) div 588)
       @ spec_vowels ! nat (((ident - 0xAC00) mod 588) div 28)
       @ spec_finals ! nat ((ident - 0xAC00) mod 28)"

section \<open>The index: records, parsers and the loader\<close>

text \<open>
  The interfaces of the source. A field read from a split line is \<open>None\<close> when the line
  has too few fields (\<^verbatim>\<open>undefined\<close>); an id is \<open>None\<close> when \<^verbatim>\<open>parseInt\<close> gave \<^verbatim>\<open>NaN\<close>.
  Field names that the records share (\<^verbatim>\<open>id\<close>, \<^verbatim>\<open>name\<close>) carry the record as a prefix.
\<close>

record CJKReading =
  field :: "string option"
  text_of :: "string option"

record CodePointData =
  cp_id :: "int option"
  cp_name :: "string option"
  general_category :: "string option"
  canonical_combining_class :: "string option"
  bidi_class :: "string option"
  decomposition_type :: "string option"
  decomposition_mapping :: "string option"
  numeric_type :: "string option"
  numeric_value :: "string option"
  bidi_mirrored :: "string option"
  unicode_1_name :: "string option"
  iso_comment :: "string option"
  simple_uppercase_mapping :: "string option"
  simple_lowercase_mapping :: "string option"
  simple_titlecase_mapping :: "string option"

record BlockData =
  block_id :: int
  block_start :: "int option"
  block_end :: "int option"
  block_name :: "string option"
  block_color :: string

text \<open>
  The three private members of \<^verbatim>\<open>UnicodeData\<close>. The keys of \<^verbatim>\<open>cjkData\<close> come
  unfiltered from \<^verbatim>\<open>parseInt\<close>, so \<^verbatim>\<open>NaN\<close> (\<open>None\<close>) is a key there.
\<close>

record UnicodeData =
  data :: "int \<rightharpoonup> CodePointData"
  blocks :: "BlockData list"
  cjkData :: "int option \<rightharpoonup> CJKReading list"

definition new_UnicodeData :: UnicodeData where
  "new_UnicodeData = \<lparr>data = Map.empty, blocks = [], cjkData = Map.empty\<rparr>"

definition parseCodePoint :: "string \<Rightarrow> CodePointData" where
  "parseCodePoint line =
     (let codePointList = split_char CHR '';'' line in
      \<lparr>cp_id = parseInt16 (template (array_get codePointList 0)),
       cp_name = array_get codePointList 1,
       general_category = array_get codePointList 2,
       canonical_combining_class = array_get codePointList 3,
       bidi_class = array_get codePointList 4,
       decomposition_type = array_get codePointList 5,
       decomposition_mapping = array_get codePointList 6,
       numeric_type = array_get codePointList 7,
       numeric_value = array_get codePointList 8,
       bidi_mirrored = array_get codePointList 9,
       unicode_1_name = array_get codePointList 10,
       iso_comment = array_get codePointList 11,
       simple_uppercase_mapping = array_get codePointList 12,
       simple_lowercase_mapping = array_get codePointList 13,
       simple_titlecase_mapping = array_get codePointList 14\<rparr>)"

subsection \<open>Range expansion\<close>

text \<open>The record that one iteration of the loop of \<^verbatim>\<open>addRange\<close> stores under \<open>i\<close>.\<close>

definition range_record :: "string \<Rightarrow> bool \<Rightarrow> CodePointData \<Rightarrow> int \<Rightarrow> CodePointData" where
  "range_record rangeName isHangul codePointData i =
     codePointData\<lparr>cp_id := Some i,
       cp_name := Some (if isHangul
         then toUpperCase (rangeName @ '' '' @ getHangulSyllableName i)
         else toUpperCase (rangeName @ '' '' @ toString16 i))\<rparr>"

function addRange_loop ::
  "int \<Rightarrow> int \<Rightarrow> string \<Rightarrow> bool \<Rightarrow> CodePointData \<Rightarrow> (int \<rightharpoonup> CodePointData)
     \<Rightarrow> (int \<rightharpoonup> CodePointData)" where
  "addRange_loop i rangeLast rangeName isHangul codePointData d =
     (if i \<le> rangeLast
      then addRange_loop (i + 1) rangeLast rangeName isHangul codePointData
             (d(i \<mapsto> range_record rangeName isHangul codePointData i))
      else d)"
  by pat_completeness auto
termination
  by (relation "measure (\<lambda>(i, rangeLast, _). nat (rangeLast + 1 - i))") auto

declare addRange_loop.simps [simp del]

definition addRange :: "int \<Rightarrow> int \<Rightarrow> string \<Rightarrow> CodePointData \<Rightarrow> UnicodeData \<Rightarrow> UnicodeData" where
  "addRange rangeFirst rangeLast rangeName codePointData u =
     (let isHangul = includes_str rangeName ''Hangul'' in
      u\<lparr>data := addRange_loop rangeFirst rangeLast rangeName isHangul codePointData (data u)\<rparr>)"

subsection \<open>The code-point loader\<close>

text \<open>
  One iteration of the loop of \<^verbatim>\<open>addUnicodeData\<close> over the lines, on the pending range
  start and the index. A \<^verbatim>\<open>NaN\<close> id fails both comparisons with the bounds and is
  dropped by \<^verbatim>\<open>isNaN\<close>. A line with an accepted id and no second field has an
  \<^verbatim>\<open>undefined\<close> name, and \<^verbatim>\<open>name.endsWith\<close> throws.
\<close>

definition addUnicodeData_line ::
  "int \<Rightarrow> int \<Rightarrow> string \<Rightarrow> int \<times> UnicodeData \<Rightarrow> error + int \<times> UnicodeData" where
  "addUnicodeData_line rangeStart rangeEnd line st =
     (let rangeFirst = fst st; u = snd st in
      if startsWith line ''#'' then Inr st
      else
        let codePointData = parseCodePoint line in
        case cp_id codePointData of
          None \<Rightarrow> Inr st
        | Some i \<Rightarrow>
            if i < rangeStart \<or> i > rangeEnd then Inr st
            else (case cp_name codePointData of
              None \<Rightarrow> Inl TypeError
            | Some nm \<Rightarrow>
                if endsWith nm ''>'' then
                  (if endsWith nm ''First>'' then Inr (i, u)
                   else if endsWith nm ''Last>'' then
                     (let rangeLast = i; rangeName = slice_1_m7 nm in
                      if includes_str rangeName ''CJK'' \<or> includes_str rangeName ''Hangul''
                      then Inr (rangeFirst, addRange rangeFirst rangeLast rangeName codePointData u)
                      else Inr st)
                   else Inr st)
                else Inr (rangeFirst, u\<lparr>data := (data u)(i \<mapsto> codePointData)\<rparr>)))"

text \<open>
  The loop over the lines. The index is mutated in place, so what was stored before a
  throw stays: the result is the error, if any, and the index as it is left.
\<close>

fun addUnicodeData_lines ::
  "int \<Rightarrow> int \<Rightarrow> string list \<Rightarrow> int \<times> UnicodeData \<Rightarrow> error option \<times> UnicodeData" where
  "addUnicodeData_lines rangeStart rangeEnd [] st = (None, snd st)"
| "addUnicodeData_lines rangeStart rangeEnd (line # rest) st =
     (case addUnicodeData_line rangeStart rangeEnd line st of
        Inl e \<Rightarrow> (Some e, snd st)
      | Inr st' \<Rightarrow> addUnicodeData_lines rangeStart rangeEnd rest st')"

text \<open>
  \<^verbatim>\<open>addUnicodeData(rangeStart, rangeEnd)\<close>, on the content of \<^verbatim>\<open>UnicodeData.txt\<close> as
  read from the file system or fetched.
\<close>

definition addUnicodeData :: "string \<Rightarrow> int \<Rightarrow> int \<Rightarrow> UnicodeData \<Rightarrow> error option \<times> UnicodeData" where
  "addUnicodeData fileContent rangeStart rangeEnd u =
     addUnicodeData_lines rangeStart rangeEnd (split_char (CHR 0x0A) fileContent) (0, u)"

definition getCodePoint :: "UnicodeData \<Rightarrow> int \<Rightarrow> CodePointData option" where
  "getCodePoint u i = data u i"

subsection \<open>Blocks\<close>














subsection \<open>CJK readings\<close>






subsection \<open>Cards\<close>





section \<open>The weighted pool\<close>

text \<open>
  Weights and random values are numbers; they are modelled as exact reals (the weights
  the program itself uses are the integer 1). \<^verbatim>\<open>Math.random\<close> is the function
  \<open>random\<close>: its \<open>i\<close>-th call returns \<open>random i\<close>. An id of an item is an integer.
\<close>

record PoolItem =
  item_id :: int
  weight :: real

record Pool =
  items :: "PoolItem list"
  unicodeData :: UnicodeData
  unicodeDataInitialized :: bool

text \<open>
  The constructor, on its optional parameter and on the module-level variable
  \<^verbatim>\<open>unicodeData\<close> (\<open>None\<close> is \<^verbatim>\<open>undefined\<close>).
\<close>

definition new_Pool :: "UnicodeData option \<Rightarrow> UnicodeData option \<Rightarrow> Pool" where
  "new_Pool unicodeDataParam module_unicodeData =
     (case unicodeDataParam of
        None \<Rightarrow>
          (case module_unicodeData of
             None \<Rightarrow> \<lparr>items = [], unicodeData = new_UnicodeData, unicodeDataInitialized = False\<rparr>
           | Some shared \<Rightarrow> \<lparr>items = [], unicodeData = shared, unicodeDataInitialized = True\<rparr>)
      | Some given \<Rightarrow> \<lparr>items = [], unicodeData = given, unicodeDataInitialized = True\<rparr>)"

definition addItem :: "PoolItem \<Rightarrow> Pool \<Rightarrow> Pool" where
  "addItem item p = p\<lparr>items := items p @ [item]\<rparr>"

definition totalWeight :: "PoolItem list \<Rightarrow> real" where
  "totalWeight its = foldl (\<lambda>sum item. sum + weight item) 0 its"

text \<open>The inner loop of \<^verbatim>\<open>draw\<close>: the item pushed, if any, for one random value.\<close>

fun draw_scan :: "PoolItem list \<Rightarrow> real \<Rightarrow> PoolItem option" where
  "draw_scan [] randomValue = None"
| "draw_scan (item # rest) randomValue =
     (if randomValue < weight item then Some item else draw_scan rest (randomValue - weight item))"

text \<open>The outer loop of \<^verbatim>\<open>draw\<close>, on the counter and the results pushed so far.\<close>

function draw_loop ::
  "nat \<Rightarrow> int \<Rightarrow> PoolItem list \<Rightarrow> real \<Rightarrow> (nat \<Rightarrow> real) \<Rightarrow> PoolItem list \<Rightarrow> PoolItem list" where
  "draw_loop i amount its totalW random results =
     (if int i < amount
      then draw_loop (Suc i) amount its totalW random
             (case draw_scan its (random i * totalW) of
                None \<Rightarrow> results
              | Some item \<Rightarrow> results @ [item])
      else results)"
  by pat_completeness auto
termination
  by (relation "measure (\<lambda>(i, amount, _). nat (amount - int i))") auto

declare draw_loop.simps [simp del]

definition draw :: "Pool \<Rightarrow> int \<Rightarrow> (nat \<Rightarrow> real) \<Rightarrow> PoolItem list" where
  "draw p amount random =
     (if length (items p) = 0 \<or> amount \<le> 0 then []
      else draw_loop 0 amount (items p) (totalWeight (items p)) random [])"

subsection \<open>The pool of the Basic Multilingual Plane\<close>

text \<open>\<^verbatim>\<open>UnicodeBMPPool.initialize\<close> of \<^verbatim>\<open>src/lib/unicode.ts\<close>: the loop over the ids.\<close>

function initialize_loop :: "int \<Rightarrow> Pool \<Rightarrow> Pool" where
  "initialize_loop i p =
     (if i < 65536
      then (case getCodePoint (unicodeData p) i of
              None \<Rightarrow> initialize_loop (i + 1) p
            | Some codePointData \<Rightarrow> initialize_loop (i + 1) (addItem \<lparr>item_id = i, weight = 1\<rparr> p))
      else p)"
  by pat_completeness auto
termination
  by (relation "measure (\<lambda>(i, p). nat (65536 - i))") auto

declare initialize_loop.simps [simp del]

definition initialize :: "Pool \<Rightarrow> Pool" where
  "initialize p = initialize_loop 0 p"

text \<open>
  The other variant of the pool in the repository (\<^verbatim>\<open>src/unnamed/part_000\<close>): its items
  carry a name, a description and the character, and its \<^verbatim>\<open>initialize\<close> first loads
  the index when the constructor did not mark it as initialized. Its \<^verbatim>\<open>UnicodeData\<close>
  has the code-point map only, with the same loader.
\<close>

record PoolItem_part_000 =
  item0_id :: int
  item0_name :: "string option"
  item0_description :: string
  item0_char :: "16 word list"
  item0_weight :: real

record Pool_part_000 =
  items0 :: "PoolItem_part_000 list"
  unicodeData0 :: UnicodeData
  unicodeDataInitialized0 :: bool

definition new_Pool_part_000 :: "UnicodeData option \<Rightarrow> UnicodeData option \<Rightarrow> Pool_part_000" where
  "new_Pool_part_000 unicodeDataParam module_unicodeData =
     (case unicodeDataParam of
        None \<Rightarrow>
          (case module_unicodeData of
             None \<Rightarrow> \<lparr>items0 = [], unicodeData0 = new_UnicodeData, unicodeDataInitialized0 = False\<rparr>
           | Some shared \<Rightarrow> \<lparr>items0 = [], unicodeData0 = shared, unicodeDataInitialized0 = True\<rparr>)
      | Some given \<Rightarrow> \<lparr>items0 = [], unicodeData0 = given, unicodeDataInitialized0 = True\<rparr>)"

function initialize_loop_part_000 :: "int \<Rightarrow> Pool_part_000 \<Rightarrow> Pool_part_000" where
  "initialize_loop_part_000 i p =
     (if i < 65536
      then (case getCodePoint (unicodeData0 p) i of
              None \<Rightarrow> initialize_loop_part_000 (i + 1) p
            | Some codePointData \<Rightarrow>
                initialize_loop_part_000 (i + 1)
                  (p\<lparr>items0 := items0 p @
                     [\<lparr>item0_id = i, item0_name = cp_name codePointData, item0_description = [],
                       item0_char = [word_of_int i], item0_weight = 1\<rparr>]\<rparr>))
      else p)"
  by pat_completeness auto
termination
  by (relation "measure (\<lambda>(i, p). nat (65536 - i))") auto

declare initialize_loop_part_000.simps [simp del]

text \<open>
  On the content of \<^verbatim>\<open>UnicodeData.txt\<close>, read only when the index is loaded. A throw
  of the loader leaves the flag unset and no item added; the pool is returned with the
  error, its index as the loader left it.
\<close>

definition initialize_part_000 ::
  "string \<Rightarrow> Pool_part_000 \<Rightarrow> error \<times> Pool_part_000 + Pool_part_000" where
  "initialize_part_000 fileContent p =
     (if \<not> unicodeDataInitialized0 p
      then (case addUnicodeData fileContent 0 65535 (unicodeData0 p) of
              (Some e, u) \<Rightarrow> Inl (e, p\<lparr>unicodeData0 := u\<rparr>)
            | (None, u) \<Rightarrow>
                Inr (initialize_loop_part_000 0 (p\<lparr>unicodeData0 := u, unicodeDataInitialized0 := True\<rparr>)))
      else Inr (initialize_loop_part_000 0 p))"

section \<open>Definitions that follow the specification\<close>






section \<open>Example inputs\<close>

definition cjk_example_file :: string where
  "cjk_example_file =
     ''4E00;<CJK Ideograph, First>;Lo;0;L;;;;;N;;;;;'' @ [CHR 0x0A] @
     ''4E02;<CJK Ideograph, Last>;Lo;0;L;;;;;N;;;;;'' @ [CHR 0x0A]"


definition example_pool :: Pool where
  "example_pool =
     \<lparr>items = [\<lparr>item_id = 1, weight = 1\<rparr>, \<lparr>item_id = 2, weight = 3\<rparr>],
      unicodeData = new_UnicodeData, unicodeDataInitialized = True\<rparr>"

definition zero_weight_pool :: Pool where
  "zero_weight_pool =
     \<lparr>items = [\<lparr>item_id = 1, weight = 0\<rparr>, \<lparr>item_id = 2, weight = 2\<rparr>,
               \<lparr>item_id = 3, weight = 0\<rparr>],
      unicodeData = new_UnicodeData, unicodeDataInitialized = True\<rparr>"




section \<open>Range expansion and the loader\<close>

lemmas loader_eval = addUnicodeData_def addUnicodeData_line_def parseCodePoint_def array_get_def
  template_def parseInt16_def is_white_def strip_0x_def startsWith_def endsWith_def
  hex_digit_value_def slice_1_m7_def addRange_def addRange_loop.simps range_record_def
  toUpperCase_def upper_char_def toString16_def hex_nat.simps hex_digit_def new_UnicodeData_def
  Let_def

lemma addRange_loop_apply:
  "addRange_loop i rangeLast rangeName isHangul cpd d k =
     (if i \<le> k \<and> k \<le> rangeLast then Some (range_record rangeName isHangul cpd k) else d k)"
proof (induction i rangeLast rangeName isHangul cpd d rule: addRange_loop.induct)
  case (1 i rangeLast rangeName isHangul cpd d)
  show ?case
  proof (cases "i \<le> rangeLast")
    case True
    have "addRange_loop i rangeLast rangeName isHangul cpd d k =
        addRange_loop (i + 1) rangeLast rangeName isHangul cpd
          (d(i \<mapsto> range_record rangeName isHangul cpd i)) k"
      using True by (subst addRange_loop.simps) simp
    also have "\<dots> = (if i + 1 \<le> k \<and> k \<le> rangeLast
        then Some (range_record rangeName isHangul cpd k)
        else (d(i \<mapsto> range_record rangeName isHangul cpd i)) k)"
      using "1.IH" [OF True] .
    also have "\<dots> = (if i \<le> k \<and> k \<le> rangeLast
        then Some (range_record rangeName isHangul cpd k) else d k)"
      using True by auto
    finally show ?thesis .
  next
    case False
    then show ?thesis by (subst addRange_loop.simps) auto
  qed
qed

lemma endsWith_iff: "endsWith s p \<longleftrightarrow> (\<exists>xs. s = xs @ p)"
proof
  assume "endsWith s p"
  then have "s = take (length s - length p) s @ p"
    by (metis append_take_drop_id endsWith_def)
  then show "\<exists>xs. s = xs @ p" ..
next
  assume "\<exists>xs. s = xs @ p"
  then show "endsWith s p" by (auto simp: endsWith_def)
qed

lemma Last_not_First: "endsWith nm ''Last>'' \<Longrightarrow> \<not> endsWith nm ''First>''"
proof
  assume a: "endsWith nm ''Last>''" and b: "endsWith nm ''First>''"
  from a obtain xs where x: "nm = xs @ ''Last>''" by (auto simp: endsWith_iff)
  from b obtain ys where y: "nm = ys @ ''First>''" by (auto simp: endsWith_iff)
  have "rev nm = rev ''Last>'' @ rev xs" using x by simp
  moreover have "rev nm = rev ''First>'' @ rev ys" using y by simp
  ultimately show False by simp
qed

lemma Last_bracket: "endsWith nm ''Last>'' \<Longrightarrow> endsWith nm ''>''"
proof -
  assume "endsWith nm ''Last>''"
  then obtain xs where "nm = (xs @ ''Last'') @ ''>''" by (auto simp: endsWith_iff)
  then show ?thesis unfolding endsWith_iff by blast
qed

lemma First_bracket: "endsWith nm ''First>'' \<Longrightarrow> endsWith nm ''>''"
proof -
  assume "endsWith nm ''First>''"
  then obtain xs where "nm = (xs @ ''First'') @ ''>''" by (auto simp: endsWith_iff)
  then show ?thesis unfolding endsWith_iff by blast
qed

lemma First_line:
  assumes "\<not> startsWith line ''#''" "cp_id (parseCodePoint line) = Some i"
    "rangeStart \<le> i" "i \<le> rangeEnd" "cp_name (parseCodePoint line) = Some nm"
    "endsWith nm ''First>''"
  shows "addUnicodeData_line rangeStart rangeEnd line (rangeFirst, u) = Inr (i, u)"
  using assms First_bracket [OF assms(6)] by (simp add: addUnicodeData_line_def Let_def)

lemma Last_line:
  assumes "\<not> startsWith line ''#''" "cp_id (parseCodePoint line) = Some i"
    "rangeStart \<le> i" "i \<le> rangeEnd" "cp_name (parseCodePoint line) = Some nm"
    "endsWith nm ''Last>''"
    "includes_str (slice_1_m7 nm) ''CJK'' \<or> includes_str (slice_1_m7 nm) ''Hangul''"
  shows "\<exists>u'. addUnicodeData_line rangeStart rangeEnd line (rangeFirst, u) = Inr (rangeFirst, u')
     \<and> blocks u' = blocks u \<and> cjkData u' = cjkData u
     \<and> (\<forall>k. data u' k =
          (if rangeFirst \<le> k \<and> k \<le> i
           then Some (range_record (slice_1_m7 nm) (includes_str (slice_1_m7 nm) ''Hangul'')
                  (parseCodePoint line) k)
           else data u k))"
  using assms Last_bracket [OF assms(6)] Last_not_First [OF assms(6)]
  by (auto simp add: addUnicodeData_line_def Let_def addRange_def addRange_loop_apply)

lemma cjk_example_error: "fst (addUnicodeData cjk_example_file 0 65535 new_UnicodeData) = None"
  by (simp add: loader_eval cjk_example_file_def)

lemma cjk_example_dom:
  "dom (data (snd (addUnicodeData cjk_example_file 0 65535 new_UnicodeData)))
     = {0x4E00, 0x4E01, 0x4E02}"
  by (simp add: loader_eval cjk_example_file_def) blast

lemma cjk_example_names:
  "map (\<lambda>k. map_option cp_name
              (data (snd (addUnicodeData cjk_example_file 0 65535 new_UnicodeData)) k))
      [0x4E00, 0x4E01, 0x4E02]
   = [Some (Some ''CJK IDEOGRAPH 4E00''), Some (Some ''CJK IDEOGRAPH 4E01''),
      Some (Some ''CJK IDEOGRAPH 4E02'')]"
  by (simp add: loader_eval cjk_example_file_def)

text \<open>
  Claim C1. A line that the loader accepts (not a comment, its id parsed and inside the
  scan bound) and whose name ends with \<open>First>\<close> sets the pending range start to its id and
  leaves the index as it is. An accepted line whose name ends with \<open>Last>\<close> and whose
  stripped tag contains \<open>CJK\<close> or \<open>Hangul\<close> stores, for every id from the pending start to
  its own id, the record of the line with that id and the synthesized name (the tag, a
  space and the Hangul syllable name or the hexadecimal id, upper-cased), and changes
  nothing else. For the two lines \<open><CJK Ideograph, First>\<close> at 4E00 and
  \<open><CJK Ideograph, Last>\<close> at 4E02 the loader returns without error and the index holds
  exactly the ids 4E00, 4E01 and 4E02, named \<open>CJK IDEOGRAPH 4E00\<close>, \<open>CJK IDEOGRAPH 4E01\<close>
  and \<open>CJK IDEOGRAPH 4E02\<close>.
\<close>

theorem range_expansion:
  "(\<forall>rangeStart rangeEnd line rangeFirst u i nm.
      \<not> startsWith line ''#'' \<and> cp_id (parseCodePoint line) = Some i
        \<and> rangeStart \<le> i \<and> i \<le> rangeEnd
        \<and> cp_name (parseCodePoint line) = Some nm \<and> endsWith nm ''First>''
      \<longrightarrow> addUnicodeData_line rangeStart rangeEnd line (rangeFirst, u) = Inr (i, u))
   \<and> (\<forall>rangeStart rangeEnd line rangeFirst u i nm.
      \<not> startsWith line ''#'' \<and> cp_id (parseCodePoint line) = Some i
        \<and> rangeStart \<le> i \<and> i \<le> rangeEnd
        \<and> cp_name (parseCodePoint line) = Some nm \<and> endsWith nm ''Last>''
        \<and> (includes_str (slice_1_m7 nm) ''CJK'' \<or> includes_str (slice_1_m7 nm) ''Hangul'')
      \<longrightarrow> (\<exists>u'. addUnicodeData_line rangeStart rangeEnd line (rangeFirst, u) = Inr (rangeFirst, u')
            \<and> blocks u' = blocks u \<and> cjkData u' = cjkData u
            \<and> (\<forall>k. data u' k =
                 (if rangeFirst \<le> k \<and> k \<le> i
                  then Some ((parseCodePoint line)\<lparr>cp_id := Some k,
                         cp_name := Some (if includes_str (slice_1_m7 nm) ''Hangul''
                           then toUpperCase (slice_1_m7 nm @ '' '' @ getHangulSyllableName k)
                           else toUpperCase (slice_1_m7 nm @ '' '' @ toString16 k))\<rparr>)
                  else data u k))))
   \<and> fst (addUnicodeData cjk_example_file 0 65535 new_UnicodeData) = None
   \<and> dom (data (snd (addUnicodeData cjk_example_file 0 65535 new_UnicodeData)))
       = {0x4E00, 0x4E01, 0x4E02}
   \<and> map (\<lambda>k. map_option cp_name
                (data (snd (addUnicodeData cjk_example_file 0 65535 new_UnicodeData)) k))
        [0x4E00, 0x4E01, 0x4E02]
      = [Some (Some ''CJK IDEOGRAPH 4E00''), Some (Some ''CJK IDEOGRAPH 4E01''),
         Some (Some ''CJK IDEOGRAPH 4E02'')]"
proof (intro conjI allI impI)
  fix rangeStart rangeEnd :: int and line rangeFirst u i nm
  assume "\<not> startsWith line ''#'' \<and> cp_id (parseCodePoint line) = Some i
        \<and> rangeStart \<le> i \<and> i \<le> rangeEnd
        \<and> cp_name (parseCodePoint line) = Some nm \<and> endsWith nm ''First>''"
  then show "addUnicodeData_line rangeStart rangeEnd line (rangeFirst, u) = Inr (i, u)"
    by (simp add: First_line)
next
  fix rangeStart rangeEnd :: int and line rangeFirst u i nm
  assume a: "\<not> startsWith line ''#'' \<and> cp_id (parseCodePoint line) = Some i
        \<and> rangeStart \<le> i \<and> i \<le> rangeEnd
        \<and> cp_name (parseCodePoint line) = Some nm \<and> endsWith nm ''Last>''
        \<and> (includes_str (slice_1_m7 nm) ''CJK'' \<or> includes_str (slice_1_m7 nm) ''Hangul'')"
  have "\<exists>u'. addUnicodeData_line rangeStart rangeEnd line (rangeFirst, u) = Inr (rangeFirst, u')
     \<and> blocks u' = blocks u \<and> cjkData u' = cjkData u
     \<and> (\<forall>k. data u' k =
          (if rangeFirst \<le> k \<and> k \<le> i
           then Some (range_record (slice_1_m7 nm) (includes_str (slice_1_m7 nm) ''Hangul'')
                  (parseCodePoint line) k)
           else data u k))"
    using a by (intro Last_line) simp_all
  then show "\<exists>u'. addUnicodeData_line rangeStart rangeEnd line (rangeFirst, u) = Inr (rangeFirst, u')
            \<and> blocks u' = blocks u \<and> cjkData u' = cjkData u
            \<and> (\<forall>k. data u' k =
                 (if rangeFirst \<le> k \<and> k \<le> i
                  then Some ((parseCodePoint line)\<lparr>cp_id := Some k,
                         cp_name := Some (if includes_str (slice_1_m7 nm) ''Hangul''
                           then toUpperCase (slice_1_m7 nm @ '' '' @ getHangulSyllableName k)
                           else toUpperCase (slice_1_m7 nm @ '' '' @ toString16 k))\<rparr>)
                  else data u k))"
    unfolding range_record_def .
qed (rule cjk_example_error cjk_example_dom cjk_example_names)+

theorem range_expansion_witness:
  "addUnicodeData_line 0 65535 ''4E00;<CJK Ideograph, First>;Lo;0;L;;;;;N;;;;;'' (0, new_UnicodeData)
     = Inr (0x4E00, new_UnicodeData)
   \<and> (\<exists>u'. addUnicodeData_line 0 65535 ''4E02;<CJK Ideograph, Last>;Lo;0;L;;;;;N;;;;;''
              (0x4E00, new_UnicodeData) = Inr (0x4E00, u')
          \<and> map_option cp_name (data u' 0x4E01) = Some (Some ''CJK IDEOGRAPH 4E01'')
          \<and> data u' 0x4DFF = None)"
proof -
  let ?l1 = "''4E00;<CJK Ideograph, First>;Lo;0;L;;;;;N;;;;;''"
  let ?l2 = "''4E02;<CJK Ideograph, Last>;Lo;0;L;;;;;N;;;;;''"
  have h1: "\<not> startsWith ?l1 ''#'' \<and> cp_id (parseCodePoint ?l1) = Some 0x4E00
        \<and> (0::int) \<le> 0x4E00 \<and> (0x4E00::int) \<le> 65535
        \<and> cp_name (parseCodePoint ?l1) = Some ''<CJK Ideograph, First>''
        \<and> endsWith ''<CJK Ideograph, First>'' ''First>''"
    by (simp add: loader_eval)
  have h2: "\<not> startsWith ?l2 ''#'' \<and> cp_id (parseCodePoint ?l2) = Some 0x4E02
        \<and> (0::int) \<le> 0x4E02 \<and> (0x4E02::int) \<le> 65535
        \<and> cp_name (parseCodePoint ?l2) = Some ''<CJK Ideograph, Last>''
        \<and> endsWith ''<CJK Ideograph, Last>'' ''Last>''
        \<and> (includes_str (slice_1_m7 ''<CJK Ideograph, Last>'') ''CJK''
            \<or> includes_str (slice_1_m7 ''<CJK Ideograph, Last>'') ''Hangul'')"
    by (simp add: loader_eval)
  from range_expansion h1
  have r1: "addUnicodeData_line 0 65535 ?l1 (0, new_UnicodeData) = Inr (0x4E00, new_UnicodeData)"
    by blast
  from range_expansion h2
  obtain u' where u': "addUnicodeData_line 0 65535 ?l2 (0x4E00, new_UnicodeData) = Inr (0x4E00, u')"
    "\<forall>k. data u' k =
        (if 0x4E00 \<le> k \<and> k \<le> 0x4E02
         then Some ((parseCodePoint ?l2)\<lparr>cp_id := Some k,
                cp_name := Some (if includes_str (slice_1_m7 ''<CJK Ideograph, Last>'') ''Hangul''
                  then toUpperCase (slice_1_m7 ''<CJK Ideograph, Last>'' @ '' '' @ getHangulSyllableName k)
                  else toUpperCase (slice_1_m7 ''<CJK Ideograph, Last>'' @ '' '' @ toString16 k))\<rparr>)
         else data new_UnicodeData k)"
    by blast
  have "map_option cp_name (data u' 0x4E01) = Some (Some ''CJK IDEOGRAPH 4E01'')"
    by (simp add: u'(2) loader_eval)
  moreover have "data u' 0x4DFF = None"
    by (simp add: u'(2) new_UnicodeData_def)
  ultimately show ?thesis using r1 u'(1) by blast
qed

section \<open>The decomposition of Hangul syllables\<close>

lemma hangul_tables_agree:
  "initials = spec_initials \<and> vowels = spec_vowels \<and> finals = spec_finals"
  by (simp add: initials_def vowels_def finals_def spec_initials_def spec_vowels_def
      spec_finals_def)

lemma js_rem_nonneg: "0 \<le> a \<Longrightarrow> 0 < b \<Longrightarrow> js_rem a b = a mod b"
  by (cases "a = 0") (simp_all add: js_rem_def)

lemma getHangulSyllableName_refines:
  assumes "0xAC00 \<le> i" "i \<le> 0xD7A3"
  shows "getHangulSyllableName i = spec_hangul_name i"
proof -
  define order where "order = i - 0xAC00"
  have o: "0 \<le> order" "order \<le> 11171"
    using assms by (simp_all add: order_def)
  have r: "js_rem order 588 = order mod 588" "js_rem order 28 = order mod 28"
    using o by (simp_all add: js_rem_nonneg)
  have b1: "0 \<le> order div 588" "order div 588 < 19"
    using o by simp_all
  have b2: "0 \<le> order mod 588 div 28" "order mod 588 div 28 < 21"
    using o by simp_all
  have b3: "0 \<le> order mod 28" "order mod 28 < 28"
    by simp_all
  have "getHangulSyllableName i =
      initials ! nat (order div 588) @ vowels ! nat (order mod 588 div 28)
        @ finals ! nat (order mod 28)"
    unfolding getHangulSyllableName_def order_def [symmetric] Let_def r
    using b1 b2 b3
    by (simp add: array_get_def template_def initials_def vowels_def finals_def)
  then show ?thesis
    by (simp add: spec_hangul_name_def order_def hangul_tables_agree)
qed

text \<open>
  Claim C2. For every id from AC00 to D7A3 the name that \<^verbatim>\<open>getHangulSyllableName\<close>
  builds is the concatenation that the specification describes: the initial at index
  \<open>(id - AC00) div 588\<close>, the vowel at index \<open>((id - AC00) mod 588) div 28\<close> and the final
  at index \<open>(id - AC00) mod 28\<close> of its tables of 19, 21 and 28 entries, the first final
  being the empty string; every index lies inside its table. The name of AC00 is \<open>ga\<close>
  and the name of D7A3 is \<open>hih\<close>.
\<close>

theorem hangul_syllable_name:
  "(\<forall>i. 0xAC00 \<le> i \<and> i \<le> 0xD7A3 \<longrightarrow>
      getHangulSyllableName i =
        spec_initials ! nat ((i - 0xAC00) div 588)
          @ spec_vowels ! nat (((i - 0xAC00) mod 588) div 28)
          @ spec_finals ! nat ((i - 0xAC00) mod 28)
      \<and> nat ((i - 0xAC00) div 588) < length spec_initials
      \<and> nat (((i - 0xAC00) mod 588) div 28) < length spec_vowels
      \<and> nat ((i - 0xAC00) mod 28) < length spec_finals)
   \<and> length spec_initials = 19 \<and> length spec_vowels = 21 \<and> length spec_finals = 28
   \<and> spec_finals ! 0 = []
   \<and> getHangulSyllableName 0xAC00 = ''ga''
   \<and> getHangulSyllableName 0xD7A3 = ''hih''"
proof (intro conjI allI impI)
  fix i :: int
  assume a: "0xAC00 \<le> i \<and> i \<le> 0xD7A3"
  then show "getHangulSyllableName i =
        spec_initials ! nat ((i - 0xAC00) div 588)
          @ spec_vowels ! nat (((i - 0xAC00) mod 588) div 28)
          @ spec_finals ! nat ((i - 0xAC00) mod 28)"
    using getHangulSyllableName_refines [of i] by (simp add: spec_hangul_name_def)
  have o: "0 \<le> i - 0xAC00" "i - 0xAC00 \<le> 11171"
    using a by simp_all
  show "nat ((i - 0xAC00) div 588) < length spec_initials"
    using o by (simp add: spec_initials_def)
  show "nat (((i - 0xAC00) mod 588) div 28) < length spec_vowels"
    using o by (simp add: spec_vowels_def)
  show "nat ((i - 0xAC00) mod 28) < length spec_finals"
    by (simp add: spec_finals_def)
next
  show "getHangulSyllableName 0xAC00 = ''ga''"
    by (simp add: getHangulSyllableName_def array_get_def template_def initials_def vowels_def
        finals_def js_rem_def)
  show "getHangulSyllableName 0xD7A3 = ''hih''"
    by (simp add: getHangulSyllableName_def array_get_def template_def initials_def vowels_def
        finals_def js_rem_def)
qed (simp_all add: spec_initials_def spec_vowels_def spec_finals_def)

theorem hangul_syllable_name_witness:
  "(0xAC00::int) \<le> 0xAC01 \<and> (0xAC01::int) \<le> 0xD7A3
   \<and> getHangulSyllableName 0xAC01 = ''gag''
   \<and> spec_initials ! nat ((0xAC01 - 0xAC00) div 588)
        @ spec_vowels ! nat (((0xAC01 - 0xAC00) mod 588) div 28)
        @ spec_finals ! nat ((0xAC01 - 0xAC00) mod 28) = ''gag''"
proof -
  have h: "(0xAC00::int) \<le> 0xAC01 \<and> (0xAC01::int) \<le> 0xD7A3"
    by simp
  have e: "spec_initials ! nat ((0xAC01 - 0xAC00) div 588)
        @ spec_vowels ! nat (((0xAC01 - 0xAC00) mod 588) div 28)
        @ spec_finals ! nat ((0xAC01 - 0xAC00) mod 28) = ''gag''"
    by (simp add: spec_initials_def spec_vowels_def spec_finals_def)
  from hangul_syllable_name h
  have "getHangulSyllableName 0xAC01 =
        spec_initials ! nat ((0xAC01 - 0xAC00) div 588)
          @ spec_vowels ! nat (((0xAC01 - 0xAC00) mod 588) div 28)
          @ spec_finals ! nat ((0xAC01 - 0xAC00) mod 28)"
    by blast
  with h e show ?thesis by simp
qed

section \<open>The weighted draw\<close>


lemma draw_loop_unfold:
  "draw_loop i amount its tw random results =
     results @ concat (map (\<lambda>k. case draw_scan its (random k * tw) of None \<Rightarrow> [] | Some x \<Rightarrow> [x])
                         [i..<nat amount])"
proof (induction i amount its tw random results rule: draw_loop.induct)
  case (1 i amount its tw random results)
  show ?case
  proof (cases "int i < amount")
    case True
    then have "[i..<nat amount] = i # [Suc i..<nat amount]"
      by (simp add: upt_conv_Cons)
    then show ?thesis
      using True "1.IH" [OF True]
      by (subst draw_loop.simps) (simp split: option.splits)
  next
    case False
    then show ?thesis
      by (subst draw_loop.simps) simp
  qed
qed










lemma draw_eq:
  "items p \<noteq> [] \<Longrightarrow> 0 < amount \<Longrightarrow>
   draw p amount random =
     concat (map (\<lambda>k. case draw_scan (items p) (random k * totalWeight (items p)) of
                        None \<Rightarrow> [] | Some x \<Rightarrow> [x]) [0..<nat amount])"
  by (simp add: draw_def draw_loop_unfold)


lemma draw_scan_positive:
  "\<forall>x\<in>set its. 0 \<le> weight x \<Longrightarrow> 0 \<le> r \<Longrightarrow> draw_scan its r = Some x \<Longrightarrow> 0 < weight x"
proof (induction its arbitrary: r)
  case Nil
  then show ?case by simp
next
  case (Cons y ys)
  show ?case
  proof (cases "r < weight y")
    case True
    then show ?thesis using Cons.prems by auto
  next
    case False
    then have s: "draw_scan ys (r - weight y) = Some x" and n: "0 \<le> r - weight y"
      using Cons.prems by simp_all
    have "\<forall>x\<in>set ys. 0 \<le> weight x"
      using Cons.prems(1) by simp
    then show ?thesis using n s by (rule Cons.IH)
  qed
qed

lemma draw_members:
  assumes "x \<in> set (draw p amount random)"
  shows "\<exists>k<nat amount. draw_scan (items p) (random k * totalWeight (items p)) = Some x"
proof -
  have ne: "items p \<noteq> []" "0 < amount"
    using assms by (auto simp: draw_def split: if_splits)
  from assms show ?thesis
    unfolding draw_eq [OF ne] by (auto split: option.splits)
qed



text \<open>
  Claim C5. \<^verbatim>\<open>draw\<close> returns the empty list for every pool when the amount is zero or
  negative, and for every amount when the pool has no item. The function has no
  throwing branch: its result is always a list.
\<close>

theorem draw_empty:
  "(\<forall>p amount random. amount \<le> 0 \<longrightarrow> draw p amount random = [])
   \<and> (\<forall>p amount random. items p = [] \<longrightarrow> draw p amount random = [])"
  by (simp add: draw_def)

theorem draw_empty_witness:
  "(0::int) \<le> 0 \<and> draw example_pool 0 (\<lambda>k. 1 / 2) = []
   \<and> items (new_Pool None None) = [] \<and> draw (new_Pool None None) 1 (\<lambda>k. 1 / 2) = []"
proof -
  have h1: "(0::int) \<le> 0" by simp
  have h2: "items (new_Pool None None) = []" by (simp add: new_Pool_def)
  from draw_empty h1 have "draw example_pool 0 (\<lambda>k. 1 / 2) = []" by blast
  moreover from draw_empty h2 have "draw (new_Pool None None) 1 (\<lambda>k. 1 / 2) = []" by blast
  ultimately show ?thesis using h1 h2 by blast
qed

text \<open>
  Claim C10. In a pool whose weights are all non-negative, with random values that all
  lie in \<open>[0, totalWeight)\<close>, no item that \<^verbatim>\<open>draw\<close> returns has the weight 0: the value
  compared with a weight is never negative, so it is never below a weight of 0.
\<close>

theorem zero_weight_never_drawn:
  assumes "\<forall>x\<in>set (items p). 0 \<le> weight x"
    and "\<forall>k<nat amount. 0 \<le> random k * totalWeight (items p)
           \<and> random k * totalWeight (items p) < totalWeight (items p)"
  shows "\<forall>x\<in>set (draw p amount random). weight x \<noteq> 0"
proof
  fix x assume "x \<in> set (draw p amount random)"
  then obtain k where k: "k < nat amount"
      "draw_scan (items p) (random k * totalWeight (items p)) = Some x"
    using draw_members by blast
  have "0 \<le> random k * totalWeight (items p)"
    using assms(2) k(1) by simp
  with assms(1) k(2) have "0 < weight x"
    using draw_scan_positive by blast
  then show "weight x \<noteq> 0" by simp
qed

theorem zero_weight_never_drawn_witness:
  "draw zero_weight_pool 2 (\<lambda>k. if k = 0 then 0 else 1 / 2)
       = [\<lparr>item_id = 2, weight = 2\<rparr>, \<lparr>item_id = 2, weight = 2\<rparr>]
   \<and> weight (draw zero_weight_pool 2 (\<lambda>k. if k = 0 then 0 else 1 / 2) ! 0) \<noteq> 0
   \<and> weight (draw zero_weight_pool 2 (\<lambda>k. if k = 0 then 0 else 1 / 2) ! 1) \<noteq> 0"
proof -
  let ?random = "\<lambda>k::nat. if k = 0 then 0 else 1 / 2 :: real"
  have t: "totalWeight (items zero_weight_pool) = 2"
    by (simp add: zero_weight_pool_def totalWeight_def)
  have h1: "\<forall>x\<in>set (items zero_weight_pool). 0 \<le> weight x"
    by (simp add: zero_weight_pool_def)
  have h2: "\<forall>k<nat 2. 0 \<le> ?random k * totalWeight (items zero_weight_pool)
           \<and> ?random k * totalWeight (items zero_weight_pool) < totalWeight (items zero_weight_pool)"
    by (simp add: t)
  have d: "draw zero_weight_pool 2 ?random = [\<lparr>item_id = 2, weight = 2\<rparr>, \<lparr>item_id = 2, weight = 2\<rparr>]"
    by (simp add: draw_def draw_loop.simps t) (simp add: zero_weight_pool_def)
  have n: "\<forall>x\<in>set (draw zero_weight_pool 2 ?random). weight x \<noteq> 0"
    by (rule zero_weight_never_drawn [OF h1 h2])
  have "length (draw zero_weight_pool 2 ?random) = 2"
    by (simp add: d)
  then have "draw zero_weight_pool 2 ?random ! 0 \<in> set (draw zero_weight_pool 2 ?random)"
    and "draw zero_weight_pool 2 ?random ! 1 \<in> set (draw zero_weight_pool 2 ?random)"
    by (simp_all only: nth_mem)
  then show ?thesis
    using n d by blast
qed

section \<open>Cards\<close>












section \<open>The colour of a block\<close>



















section \<open>Parsing a code-point line and writing it back\<close>























section \<open>The scan bound of the loader\<close>

lemmas loader_eval_no_loop = addUnicodeData_def addUnicodeData_line_def parseCodePoint_def
  array_get_def template_def parseInt16_def is_white_def strip_0x_def startsWith_def endsWith_def
  hex_digit_value_def slice_1_m7_def addRange_def addRange_loop_apply range_record_def
  toUpperCase_def upper_char_def toString16_def hex_nat.simps hex_digit_def new_UnicodeData_def
  Let_def

text \<open>
  What holds of the bound. With the pending range start at or above a lower limit \<open>lo\<close>
  that is not above \<open>rangeStart\<close>, a line keeps the stored ids between \<open>lo\<close> and
  \<open>rangeEnd\<close>; the loader starts with the pending range start 0.
\<close>

lemma addUnicodeData_line_bound:
  assumes "addUnicodeData_line rangeStart rangeEnd line (rangeFirst, u) = Inr (rangeFirst', u')"
    and "lo \<le> rangeStart" and "lo \<le> rangeFirst" and "dom (data u) \<subseteq> {lo..rangeEnd}"
  shows "lo \<le> rangeFirst' \<and> dom (data u') \<subseteq> {lo..rangeEnd}"
proof -
  have old: "lo \<le> k \<and> k \<le> rangeEnd" if "data u k = Some y" for k y
    using that assms(4) by (auto simp: dom_def)
  have "lo \<le> rangeFirst'"
    using assms(1-3)
    by (auto simp: addUnicodeData_line_def Let_def split: if_splits option.splits)
  moreover have "lo \<le> k \<and> k \<le> rangeEnd" if "data u' k = Some y" for k y
    using that assms(1-3) old [of k]
    by (auto simp: addUnicodeData_line_def Let_def addRange_def addRange_loop_apply
        split: if_splits option.splits)
  ultimately show ?thesis
    by (auto simp: dom_def)
qed

lemma addUnicodeData_lines_bound:
  assumes "lo \<le> rangeStart" and "lo \<le> rangeFirst" and "dom (data u) \<subseteq> {lo..rangeEnd}"
  shows "dom (data (snd (addUnicodeData_lines rangeStart rangeEnd ls (rangeFirst, u))))
           \<subseteq> {lo..rangeEnd}"
  using assms(2,3)
proof (induction ls arbitrary: rangeFirst u)
  case Nil
  then show ?case by simp
next
  case (Cons line ls)
  show ?case
  proof (cases "addUnicodeData_line rangeStart rangeEnd line (rangeFirst, u)")
    case (Inl e)
    then show ?thesis using Cons.prems by simp
  next
    case (Inr st)
    obtain rangeFirst' u' where st: "st = (rangeFirst', u')"
      by (cases st)
    have "lo \<le> rangeFirst' \<and> dom (data u') \<subseteq> {lo..rangeEnd}"
      using Inr assms(1) Cons.prems unfolding st by (rule addUnicodeData_line_bound)
    then have "dom (data (snd (addUnicodeData_lines rangeStart rangeEnd ls (rangeFirst', u'))))
           \<subseteq> {lo..rangeEnd}"
      using Cons.IH by blast
    then show ?thesis
      using Inr st by simp
  qed
qed

lemma addUnicodeData_bound:
  assumes "rangeStart \<le> 0"
  shows "dom (data (snd (addUnicodeData fileContent rangeStart rangeEnd new_UnicodeData)))
           \<subseteq> {rangeStart..rangeEnd}"
  unfolding addUnicodeData_def
  by (rule addUnicodeData_lines_bound) (simp_all add: assms new_UnicodeData_def)

lemma addUnicodeData_default_bound:
  "dom (data (snd (addUnicodeData fileContent 0 65535 new_UnicodeData))) \<subseteq> {0..65535}"
  by (rule addUnicodeData_bound) simp

text \<open>
  A line whose name ends with \<open>></\<close> stores nothing unless it is a \<open>Last></\<close> line whose tag
  contains \<open>CJK\<close> or \<open>Hangul\<close>: the other bracketed ranges never reach the index.
\<close>

lemma other_ranges_not_stored:
  assumes "cp_name (parseCodePoint line) = Some nm" and "endsWith nm ''>''"
    and "\<not> (endsWith nm ''Last>'' \<and>
             (includes_str (slice_1_m7 nm) ''CJK'' \<or> includes_str (slice_1_m7 nm) ''Hangul''))"
  shows "\<exists>rangeFirst'. addUnicodeData_line rangeStart rangeEnd line (rangeFirst, u)
           = Inr (rangeFirst', u)"
  using assms by (auto simp: addUnicodeData_line_def Let_def split: option.splits)

text \<open>
  Claim C6, at an input where the code leaves the bound. The loader is called with the
  bound \<open>[4E01, FFFF]\<close> on the two lines of the CJK range from 4E00 to 4E02. The \<open>First></\<close>
  line is below the bound and skipped, so the pending range start keeps its initial
  value 0; the \<open>Last></\<close> line is inside the bound, and the expansion stores every id from 0
  to 4E02. The id 41 is stored, under a synthesized CJK name, although it lies below
  the lower bound.
\<close>

theorem scan_bound_broken_by_range:
  "fst (addUnicodeData cjk_example_file 0x4E01 0xFFFF new_UnicodeData) = None
   \<and> dom (data (snd (addUnicodeData cjk_example_file 0x4E01 0xFFFF new_UnicodeData))) = {0..0x4E02}
   \<and> map_option cp_name (data (snd (addUnicodeData cjk_example_file 0x4E01 0xFFFF new_UnicodeData)) 0x41)
       = Some (Some ''CJK IDEOGRAPH 41'')
   \<and> (0x41::int) < 0x4E01"
proof (intro conjI)
  show "fst (addUnicodeData cjk_example_file 0x4E01 0xFFFF new_UnicodeData) = None"
    by (simp add: loader_eval_no_loop cjk_example_file_def)
  show "dom (data (snd (addUnicodeData cjk_example_file 0x4E01 0xFFFF new_UnicodeData))) = {0..0x4E02}"
    by (auto simp add: loader_eval_no_loop cjk_example_file_def dom_def)
  show "map_option cp_name (data (snd (addUnicodeData cjk_example_file 0x4E01 0xFFFF new_UnicodeData)) 0x41)
       = Some (Some ''CJK IDEOGRAPH 41'')"
    by (simp add: loader_eval_no_loop cjk_example_file_def)
  show "(0x41::int) < 0x4E01"
    by simp
qed

section \<open>Seeding the pool of the Basic Multilingual Plane\<close>

lemma upto_first: "i \<le> j \<Longrightarrow> [i..j] = i # [i + 1..j]"
  by (simp add: upto_rec1)

lemma initialize_loop_items:
  "items (initialize_loop i p) =
     items p @ map (\<lambda>k. \<lparr>item_id = k, weight = 1\<rparr>)
                 (filter (\<lambda>k. getCodePoint (unicodeData p) k \<noteq> None) [i..65535])
   \<and> unicodeData (initialize_loop i p) = unicodeData p
   \<and> unicodeDataInitialized (initialize_loop i p) = unicodeDataInitialized p"
proof (induction i p rule: initialize_loop.induct)
  case (1 i p)
  show ?case
  proof (cases "i < 65536")
    case False
    then show ?thesis
      by (subst (1 2 3) initialize_loop.simps) simp
  next
    case True
    then have u: "[i..65535] = i # [i + 1..65535]"
      by (intro upto_first) simp
    show ?thesis
    proof (cases "getCodePoint (unicodeData p) i")
      case None
      then show ?thesis
        using True "1.IH"(1) [OF True None] u
        by (subst (1 2 3) initialize_loop.simps) simp
    next
      case (Some c)
      then show ?thesis
        using True "1.IH"(2) [OF True Some] u
        by (subst (1 2 3) initialize_loop.simps) (simp add: addItem_def)
    qed
  qed
qed

lemma initialize_loop_part_000_items:
  "map item0_id (items0 (initialize_loop_part_000 i p)) =
     map item0_id (items0 p) @ filter (\<lambda>k. getCodePoint (unicodeData0 p) k \<noteq> None) [i..65535]
   \<and> unicodeData0 (initialize_loop_part_000 i p) = unicodeData0 p
   \<and> unicodeDataInitialized0 (initialize_loop_part_000 i p) = unicodeDataInitialized0 p"
proof (induction i p rule: initialize_loop_part_000.induct)
  case (1 i p)
  show ?case
  proof (cases "i < 65536")
    case False
    then show ?thesis
      by (subst (1 2 3) initialize_loop_part_000.simps) simp
  next
    case True
    then have u: "[i..65535] = i # [i + 1..65535]"
      by (intro upto_first) simp
    show ?thesis
    proof (cases "getCodePoint (unicodeData0 p) i")
      case None
      then show ?thesis
        using True "1.IH"(1) [OF True None] u
        by (subst (1 2 3) initialize_loop_part_000.simps) simp
    next
      case (Some c)
      then show ?thesis
        using True "1.IH"(2) [OF True Some] u
        by (subst (1 2 3) initialize_loop_part_000.simps) simp
    qed
  qed
qed

text \<open>
  The seeding itself, in both variants: from a pool without items, the ids of the items
  are the ids from 0 to FFFF that the index knows, in increasing order and once each,
  and every weight is 1.
\<close>

lemma initialize_seeding:
  assumes "items p = []"
  shows "map item_id (items (initialize p))
           = filter (\<lambda>k. getCodePoint (unicodeData p) k \<noteq> None) [0..65535]"
    and "\<forall>x\<in>set (items (initialize p)). weight x = 1"
    and "sorted (map item_id (items (initialize p)))"
    and "distinct (map item_id (items (initialize p)))"
    and "set (map item_id (items (initialize p)))
           = {k. 0 \<le> k \<and> k \<le> 65535 \<and> getCodePoint (unicodeData p) k \<noteq> None}"
proof -
  show m: "map item_id (items (initialize p))
           = filter (\<lambda>k. getCodePoint (unicodeData p) k \<noteq> None) [0..65535]"
    using initialize_loop_items [of 0 p] assms by (simp add: initialize_def comp_def)
  show "\<forall>x\<in>set (items (initialize p)). weight x = 1"
    using initialize_loop_items [of 0 p] assms by (auto simp: initialize_def)
  show "sorted (map item_id (items (initialize p)))"
    unfolding m by (rule sorted_wrt_filter) simp
  show "distinct (map item_id (items (initialize p)))"
    unfolding m by simp
  show "set (map item_id (items (initialize p)))
           = {k. 0 \<le> k \<and> k \<le> 65535 \<and> getCodePoint (unicodeData p) k \<noteq> None}"
    unfolding m by auto
qed

lemma filter_upto_none: "\<forall>k. a \<le> k \<and> k \<le> b \<longrightarrow> \<not> P k \<Longrightarrow> filter P [a..b] = []"
  by (simp add: filter_empty_conv)

lemma filter_upto_all: "\<forall>k. a \<le> k \<and> k \<le> b \<longrightarrow> P k \<Longrightarrow> filter P [a..b] = [a..b]"
  by (simp add: filter_id_conv)

lemma filter_upto_interval:
  assumes "a \<le> lo" "lo \<le> hi" "hi \<le> b" and "\<forall>k. P k \<longleftrightarrow> lo \<le> k \<and> k \<le> hi"
  shows "filter P [a..b] = [lo..hi]"
proof -
  have "[a..b] = [a..lo - 1] @ [lo..hi] @ [hi + 1..b]"
    using assms(1-3) by (metis upto_split1 upto_split2 order_trans)
  moreover have "filter P [a..lo - 1] = []"
    using assms(4) by (intro filter_upto_none) auto
  moreover have "filter P [hi + 1..b] = []"
    using assms(4) by (intro filter_upto_none) auto
  moreover have "filter P [lo..hi] = [lo..hi]"
    using assms(4) by (intro filter_upto_all) auto
  ultimately show ?thesis
    by simp
qed

text \<open>
  The variant of \<^verbatim>\<open>src/unnamed/part_000\<close> loads the index when the flag is unset, and
  only then: after a call that returned, the flag is set and a further call leaves the
  index as it is, whatever the file holds.
\<close>

lemma initialize_part_000_loads:
  assumes "\<not> unicodeDataInitialized0 p"
    and "addUnicodeData fileContent 0 65535 (unicodeData0 p) = (None, u)"
  shows "\<exists>p'. initialize_part_000 fileContent p = Inr p' \<and> unicodeData0 p' = u
           \<and> unicodeDataInitialized0 p'
           \<and> map item0_id (items0 p') =
                 map item0_id (items0 p) @ filter (\<lambda>k. getCodePoint u k \<noteq> None) [0..65535]"
proof -
  let ?q = "p\<lparr>unicodeData0 := u, unicodeDataInitialized0 := True\<rparr>"
  have g: "unicodeData0 ?q = u" "items0 ?q = items0 p" "unicodeDataInitialized0 ?q = True"
    by simp_all
  note m = initialize_loop_part_000_items [of 0 ?q, unfolded g]
  have "initialize_part_000 fileContent p = Inr (initialize_loop_part_000 0 ?q)"
    using assms by (simp add: initialize_part_000_def)
  then show ?thesis
    using m by blast
qed

lemma initialize_part_000_loads_once:
  assumes "initialize_part_000 fileContent p = Inr p'"
  shows "unicodeDataInitialized0 p'
    \<and> (\<exists>p''. initialize_part_000 other p' = Inr p'' \<and> unicodeData0 p'' = unicodeData0 p')"
proof -
  have f: "unicodeDataInitialized0 p'"
    using assms initialize_loop_part_000_items
    by (auto simp: initialize_part_000_def split: if_splits prod.splits option.splits)
  then have "initialize_part_000 other p' = Inr (initialize_loop_part_000 0 p')"
    by (simp add: initialize_part_000_def)
  then show ?thesis
    using f initialize_loop_part_000_items [of 0 p'] by simp
qed

text \<open>
  Claim C7, at an input where the code of \<^verbatim>\<open>src/lib/unicode.ts\<close> does not load the index.
  A pool is constructed without an index while the module-level index is still
  \<^verbatim>\<open>undefined\<close>: the constructor gives it an empty index of its own and leaves the flag
  unset. \<^verbatim>\<open>initialize\<close> then seeds from the empty index: no item is added, whatever
  the file holds. The variant of \<^verbatim>\<open>src/unnamed/part_000\<close>, from the same constructor
  call and on the two lines of the CJK range, loads the index and seeds the three ids.
\<close>

theorem bmp_pool_not_loaded:
  "unicodeDataInitialized (new_Pool None None) = False
   \<and> items (initialize (new_Pool None None)) = []
   \<and> dom (data (unicodeData (initialize (new_Pool None None)))) = {}
   \<and> (case initialize_part_000 cjk_example_file (new_Pool_part_000 None None) of
         Inl e \<Rightarrow> None
       | Inr p \<Rightarrow> Some (map item0_id (items0 p), unicodeDataInitialized0 p))
       = Some ([0x4E00, 0x4E01, 0x4E02], True)"
proof (intro conjI)
  let ?p = "new_Pool None None"
  show "unicodeDataInitialized ?p = False"
    by (simp add: new_Pool_def)
  have e: "filter (\<lambda>k. getCodePoint (unicodeData ?p) k \<noteq> None) [0..65535] = []"
    by (intro filter_upto_none) (simp add: new_Pool_def new_UnicodeData_def getCodePoint_def)
  note l = initialize_loop_items [of 0 ?p, unfolded e]
  have "items (initialize ?p) = items ?p"
    using l by (simp add: initialize_def)
  then show "items (initialize ?p) = []"
    by (simp add: new_Pool_def)
  have "unicodeData (initialize ?p) = unicodeData ?p"
    using l by (simp add: initialize_def)
  then show "dom (data (unicodeData (initialize ?p))) = {}"
    by (simp add: new_Pool_def new_UnicodeData_def)
next
  let ?q = "new_Pool_part_000 None None"
  let ?r = "addUnicodeData cjk_example_file 0 65535 new_UnicodeData"
  let ?q' = "?q\<lparr>unicodeData0 := snd ?r, unicodeDataInitialized0 := True\<rparr>"
  have q: "unicodeData0 ?q = new_UnicodeData" "\<not> unicodeDataInitialized0 ?q" "items0 ?q = []"
    by (simp_all add: new_Pool_part_000_def)
  have i: "initialize_part_000 cjk_example_file ?q = Inr (initialize_loop_part_000 0 ?q')"
    by (simp add: initialize_part_000_def q split_beta cjk_example_error)
  have "\<forall>k. getCodePoint (snd ?r) k \<noteq> None \<longleftrightarrow> 0x4E00 \<le> k \<and> k \<le> 0x4E02"
  proof
    fix k
    have "getCodePoint (snd ?r) k \<noteq> None \<longleftrightarrow> k \<in> dom (data (snd ?r))"
      by (auto simp: getCodePoint_def)
    also have "\<dots> \<longleftrightarrow> 0x4E00 \<le> k \<and> k \<le> 0x4E02"
      unfolding cjk_example_dom by auto
    finally show "getCodePoint (snd ?r) k \<noteq> None \<longleftrightarrow> 0x4E00 \<le> k \<and> k \<le> 0x4E02" .
  qed
  then have f: "filter (\<lambda>k. getCodePoint (snd ?r) k \<noteq> None) [0..65535] = [0x4E00..0x4E02]"
    by (intro filter_upto_interval) simp_all
  have u: "[0x4E00..0x4E02] = [0x4E00, 0x4E01, 0x4E02 :: int]"
    by (simp add: upto_rec1)
  have g: "unicodeData0 ?q' = snd ?r"
    by simp
  note m = initialize_loop_part_000_items [of 0 ?q', unfolded g f u]
  have "map item0_id (items0 (initialize_loop_part_000 0 ?q')) = [0x4E00, 0x4E01, 0x4E02]"
    and "unicodeDataInitialized0 (initialize_loop_part_000 0 ?q')"
    using m by (simp_all add: q(3))
  then show "(case initialize_part_000 cjk_example_file ?q of
         Inl e \<Rightarrow> None
       | Inr p \<Rightarrow> Some (map item0_id (items0 p), unicodeDataInitialized0 p))
       = Some ([0x4E00, 0x4E01, 0x4E02], True)"
    by (simp add: i)
qed

end
